theory Spec2Isabelle
  imports Complex_Main "HOL-Library.Sublist" "HOL-Library.Multiset"
begin

section \<open>Strings\<close>

text \<open>
  A Python string is modelled as a \<^typ>\<open>string\<close>: the bytes of its UTF-8 encoding, so that a
  character outside ASCII is a run of bytes from 128 on. The library operations that the connector
  applies to strings (\<open>split\<close>, \<open>in\<close>, \<open>lstrip\<close>, \<open>replace\<close>, \<open>find\<close>, \<open>str\<close> of an
  integer) look for ASCII characters or compare whole substrings, and are written out below on
  the bytes. \<open>str.lower\<close> follows the Unicode case mappings: it is written out for the strings
  that are ASCII throughout, and on every other string it is the parameter \<open>unicode_lower\<close>.
\<close>

fun split_on :: "char \<Rightarrow> string \<Rightarrow> string list" where
  "split_on sep [] = [[]]"
| "split_on sep (c # cs) =
     (if c = sep then [] # split_on sep cs
      else (case split_on sep cs of
              [] \<Rightarrow> [[c]]
            | p # ps \<Rightarrow> (c # p) # ps))"

definition str_in :: "string \<Rightarrow> string \<Rightarrow> bool" where
  "str_in needle hay = list_ex (prefix needle) (suffixes hay)"

definition lower_char :: "char \<Rightarrow> char" where
  "lower_char c =
     (case map_of (zip ''ABCDEFGHIJKLMNOPQRSTUVWXYZ'' ''abcdefghijklmnopqrstuvwxyz'') c of
        None \<Rightarrow> c
      | Some l \<Rightarrow> l)"

definition ascii_lower :: "string \<Rightarrow> string" where
  "ascii_lower s = map lower_char s"

definition is_ascii :: "char \<Rightarrow> bool" where
  "is_ascii c = ((of_char c :: nat) < 128)"

definition lower :: "(string \<Rightarrow> string) \<Rightarrow> string \<Rightarrow> string" where
  "lower unicode_lower s = (if list_all is_ascii s then ascii_lower s else unicode_lower s)"

definition digit_char :: "nat \<Rightarrow> char" where
  "digit_char d = ''0123456789'' ! d"

fun str_nat :: "nat \<Rightarrow> string" where
  "str_nat n = (if n < 10 then [digit_char n] else str_nat (n div 10) @ [digit_char (n mod 10)])"

declare str_nat.simps [simp del]

definition str_int :: "int \<Rightarrow> string" where
  "str_int i = (if i < 0 then CHR ''-'' # str_nat (nat (- i)) else str_nat (nat i))"

text \<open>The slice \<open>xs[:n]\<close>: a negative bound counts from the end of the list.\<close>

definition slice_to :: "int \<Rightarrow> 'a list \<Rightarrow> 'a list" where
  "slice_to n xs = (if n < 0 then take (nat (int (length xs) + n)) xs else take (nat n) xs)"

section \<open>The library's URL parser\<close>

text \<open>
  \<open>urlparse\<close> is \<open>urllib.parse.urlparse\<close> of the standard library (CPython 3.12),
  which both URI decoders call: leading control characters and spaces are stripped, tabs and
  newlines removed, then the scheme, the network location after \<open>//\<close>, the fragment, the
  query and (for the schemes that use them) the parameters are cut off what remains.
  The library raises \<open>ValueError\<close> on a network location whose brackets do not pair up.
  A network location with paired brackets or with a non-ASCII character goes through the
  library's IPv6 and NFKC checks, which are not modelled: their verdict is the parameter
  \<open>netloc_ok\<close>.
\<close>

record parse_result =
  scheme :: string
  netloc :: string
  path :: string
  url_params :: string
  url_query :: string
  url_fragment :: string

definition c0_control_or_space :: "char \<Rightarrow> bool" where
  "c0_control_or_space c = ((of_char c :: nat) \<le> 32)"

definition unsafe_url_byte :: "char \<Rightarrow> bool" where
  "unsafe_url_byte c = (c \<in> set [CHR 0x09, CHR 0x0D, CHR 0x0A])"

definition ascii_alpha :: "char \<Rightarrow> bool" where
  "ascii_alpha c = (c \<in> set ''abcdefghijklmnopqrstuvwxyzABCDEFGHIJKLMNOPQRSTUVWXYZ'')"

definition scheme_chars :: string where
  "scheme_chars = ''abcdefghijklmnopqrstuvwxyzABCDEFGHIJKLMNOPQRSTUVWXYZ0123456789+-.''"

definition uses_params :: "string list" where
  "uses_params = ['''', ''ftp'', ''hdl'', ''prospero'', ''http'', ''imap'', ''https'', ''shttp'',
                  ''rtsp'', ''rtspu'', ''sip'', ''sips'', ''mms'', ''sftp'', ''tel'']"

text \<open>\<open>url.find(':')\<close> and the test of the characters before it.\<close>

definition split_scheme :: "string \<Rightarrow> string \<times> string" where
  "split_scheme url =
     (let pre = takeWhile (\<lambda>c. c \<noteq> CHR '':'') url in
      if CHR '':'' \<in> set url \<and> 0 < length pre \<and> ascii_alpha (hd url)
         \<and> list_all (\<lambda>c. c \<in> set scheme_chars) pre
      then (ascii_lower pre, drop (length pre + 1) url)
      else ([], url))"

definition netloc_delim :: "char \<Rightarrow> bool" where
  "netloc_delim c = (c \<in> set ''/?#'')"

definition splitnetloc :: "string \<Rightarrow> string \<times> string" where
  "splitnetloc url =
     (let rest = drop 2 url in
      (takeWhile (\<lambda>c. \<not> netloc_delim c) rest, dropWhile (\<lambda>c. \<not> netloc_delim c) rest))"

definition check_netloc :: "(string \<Rightarrow> bool) \<Rightarrow> string \<Rightarrow> bool" where
  "check_netloc netloc_ok nl =
     (if (CHR ''['' \<in> set nl) \<noteq> (CHR '']'' \<in> set nl) then False
      else if CHR ''['' \<in> set nl \<or> \<not> list_all is_ascii nl then netloc_ok nl
      else True)"

text \<open>\<open>s.split(sep, 1)\<close> when \<open>sep\<close> occurs in \<open>s\<close>, and \<open>(s, '')\<close> otherwise.\<close>

definition cut_at :: "char \<Rightarrow> string \<Rightarrow> string \<times> string" where
  "cut_at sep s = (takeWhile (\<lambda>c. c \<noteq> sep) s, drop 1 (dropWhile (\<lambda>c. c \<noteq> sep) s))"

definition splitparams :: "string \<Rightarrow> string \<times> string" where
  "splitparams url =
     (let tail = rev (takeWhile (\<lambda>c. c \<noteq> CHR ''/'') (rev url));
          front = take (length url - length tail) url
      in if CHR '';'' \<in> set tail
         then (front @ fst (cut_at CHR '';'' tail), snd (cut_at CHR '';'' tail))
         else if CHR ''/'' \<in> set url then (url, [])
         else (butlast url, url))"

datatype error =
    Urllib_ValueError
  | Invalid_URI_scheme string
  | Invalid_Dify_URI_format string
  | Failed_to_list_Dify_datasets nat
  | Network_error_while_listing
  | Listing_traversal_error
  | Failed_to_get_knowledge_bases error
  | No_knowledge_bases_available
  | Sort_TypeError

definition urlparse :: "(string \<Rightarrow> bool) \<Rightarrow> string \<Rightarrow> error + parse_result" where
  "urlparse netloc_ok uri =
     (let url0 = filter (\<lambda>c. \<not> unsafe_url_byte c) (dropWhile c0_control_or_space uri);
          (sch, url1) = split_scheme url0;
          (nl, url2) = (if take 2 url1 = ''//'' then splitnetloc url1 else ([], url1));
          (url3, frag) = cut_at CHR ''#'' url2;
          (url4, qry) = cut_at CHR ''?'' url3;
          (url5, prm) = (if sch \<in> set uses_params \<and> CHR '';'' \<in> set url4
                         then splitparams url4 else (url4, []))
      in if check_netloc netloc_ok nl
         then Inr \<lparr>scheme = sch, netloc = nl, path = url5, url_params = prm,
                   url_query = qry, url_fragment = frag\<rparr>
         else Inl Urllib_ValueError)"

section \<open>The URI decoders\<close>

text \<open>
  \<open>DifyFlowProvider._parse_uri\<close>: every exception raised in its body is caught and turned
  into \<open>None\<close>; so are the library's \<open>ValueError\<close> and the \<open>IndexError\<close> of
  \<open>path_parts[-1]\<close> on an empty list.
\<close>

definition provider_parse_uri :: "(string \<Rightarrow> bool) \<Rightarrow> string \<Rightarrow> string option" where
  "provider_parse_uri netloc_ok uri =
     (case urlparse netloc_ok uri of
        Inl e \<Rightarrow> None
      | Inr parsed \<Rightarrow>
          if scheme parsed \<noteq> ''dify'' then None
          else (let path_parts = split_on CHR ''/'' (path parsed) in
                if path_parts = [] then None else Some (last path_parts)))"

text \<open>The module-level \<open>parse_uri\<close>, which lets the library's error through and raises its own.\<close>

definition parse_uri :: "(string \<Rightarrow> bool) \<Rightarrow> string \<Rightarrow> error + (string \<times> string)" where
  "parse_uri netloc_ok uri =
     (case urlparse netloc_ok uri of
        Inl e \<Rightarrow> Inl e
      | Inr parsed \<Rightarrow>
          if scheme parsed \<noteq> ''dify'' then Inl (Invalid_URI_scheme uri)
          else (let path_parts = split_on CHR ''/'' (path parsed) in
                if length path_parts < 3 \<or> path_parts ! 1 \<noteq> ''knowledge_base''
                then Inl (Invalid_Dify_URI_format uri)
                else (let knowledge_base_id = path_parts ! 2;
                          document_id = (if length path_parts \<ge> 5 \<and> path_parts ! 3 = ''document''
                                         then path_parts ! 4 else [])
                      in Inr (knowledge_base_id, document_id))))"

section \<open>Data model\<close>

record resource =
  uri :: string
  title :: string
  description :: string

text \<open>
  The value under \<open>score\<close> in a record, which the code stores as the chunk's similarity
  without looking at it: any JSON value as \<open>response.json()\<close> gives it. \<open>Number\<close> is a
  finite number; \<open>NaN\<close>, \<open>Infinity\<close> and \<open>Minus_Infinity\<close> are the three other floats that
  the JSON decoder accepts; \<open>Null\<close> is Python's \<open>None\<close>; \<open>Boolean\<close> and \<open>Text\<close> are a JSON
  boolean and a JSON string; \<open>Structured\<close> is an array or an object, given by its text.
\<close>

datatype score_value =
    Number real
  | NaN
  | Infinity
  | Minus_Infinity
  | Null
  | Boolean bool
  | Text string
  | Structured string

record chunk =
  content :: string
  similarity :: score_value

record document =
  doc_id :: string
  doc_title :: string
  doc_chunks :: "chunk list"

text \<open>
  One entry of the \<open>records\<close> list of a retrieval response. A field is \<open>None\<close> when
  its key is missing from the payload (for the three segment fields: also when the whole
  \<open>segment\<close>, or its \<open>document\<close>, is missing), which is where the code takes its default.
  The three segment fields, where present, are strings.
\<close>

record retrieval_record =
  score :: "score_value option"
  document_id :: "string option"
  document_name :: "string option"
  segment_content :: "string option"

text \<open>
  One entry of the \<open>data\<close> list of the dataset listing; a field is \<open>None\<close> when its key is
  missing, and a string where present.
\<close>

record dataset =
  dataset_id :: "string option"
  dataset_name :: "string option"
  dataset_description :: "string option"

text \<open>
  What one HTTP request comes to: the request raises (connection error, timeout), or a response
  arrives with a status code and a body. A body is \<open>Undecodable\<close> when \<open>response.json()\<close>
  raises its \<open>JSONDecodeError\<close>, which is a \<open>RequestException\<close> (requests 2.27 and later);
  it is \<open>Unreadable\<close> when it is decoded and the traversal of the result raises (the result is
  not a dictionary, an entry is not one); otherwise it is the \<open>Payload\<close> of its entries.
\<close>

datatype 'a body = Undecodable | Unreadable | Payload 'a

datatype 'a response = Request_Exception | Response nat "'a body"

text \<open>
  The world outside the provider: the dataset listing endpoint (by keyword), the retrieval
  endpoint (by knowledge-base ID and query), and three behaviours of the libraries that are not
  written out: the check of unusual network locations in \<open>urlparse\<close>; \<open>str.lower\<close> on a string
  that is not ASCII throughout; and what \<open>list.sort\<close> does with the accumulated Documents when
  a similarity is not a finite number. The sort works in place, so it either raises or leaves
  the Documents rearranged: \<open>sort_without_order\<close> answers \<open>None\<close> when it raises, and
  otherwise the position that each Document ends up at.
\<close>

record world =
  netloc_check :: "string \<Rightarrow> bool"
  unicode_lower :: "string \<Rightarrow> string"
  sort_without_order :: "document list \<Rightarrow> (document \<Rightarrow> nat) option"
  get_datasets :: "string option \<Rightarrow> dataset list response"
  post_retrieve :: "string \<Rightarrow> string \<Rightarrow> retrieval_record list response"

text \<open>The provider's configuration, as read from the environment by its constructor.\<close>

record provider =
  page_size :: int
  max_knowledge_bases :: int

section \<open>The response normalizer\<close>

text \<open>
  \<open>_parse_dify_response\<close>. The dictionary \<open>doc_map\<close> keeps its keys in insertion order, so
  it is a list of key-value pairs with no key twice; \<open>len(doc_map)\<close> is its length, a new key
  goes to the end, and \<open>list(doc_map.values())\<close> is the list of its second components.
\<close>

definition unique_doc_id :: "string \<Rightarrow> string \<Rightarrow> int \<Rightarrow> string" where
  "unique_doc_id knowledge_base_id original_doc_id n =
     knowledge_base_id @ ''_'' @ original_doc_id @ ''_'' @ str_int n"

definition append_chunk :: "string \<Rightarrow> chunk \<Rightarrow> (string \<times> document) list \<Rightarrow> (string \<times> document) list" where
  "append_chunk key c doc_map =
     map (\<lambda>(k, d). if k = key then (k, d\<lparr>doc_chunks := doc_chunks d @ [c]\<rparr>) else (k, d)) doc_map"

fun group_records ::
  "string \<Rightarrow> int \<Rightarrow> retrieval_record list \<Rightarrow> (string \<times> document) list \<Rightarrow> (string \<times> document) list" where
  "group_records knowledge_base_id doc_id_offset [] doc_map = doc_map"
| "group_records knowledge_base_id doc_id_offset (r # records) doc_map =
     (let scr = (case score r of None \<Rightarrow> Number 0 | Some v \<Rightarrow> v);
          original_doc_id = (case document_id r of None \<Rightarrow> [] | Some v \<Rightarrow> v);
          doc_name = (case document_name r of None \<Rightarrow> [] | Some v \<Rightarrow> v);
          cont = (case segment_content r of None \<Rightarrow> [] | Some v \<Rightarrow> v);
          key = unique_doc_id knowledge_base_id original_doc_id
                  (doc_id_offset + int (length doc_map));
          doc_map1 =
            (if key \<notin> fst ` set doc_map
             then doc_map @
                  [(key, \<lparr>doc_id = key,
                          doc_title = (if knowledge_base_id \<noteq> []
                                       then ''['' @ knowledge_base_id @ ''] '' @ doc_name
                                       else doc_name),
                          doc_chunks = []\<rparr>)]
             else doc_map)
      in group_records knowledge_base_id doc_id_offset records
           (append_chunk key \<lparr>content = cont, similarity = scr\<rparr> doc_map1))"

definition parse_dify_response :: "retrieval_record list \<Rightarrow> string \<Rightarrow> int \<Rightarrow> document list" where
  "parse_dify_response records knowledge_base_id doc_id_offset =
     map snd (group_records knowledge_base_id doc_id_offset records [])"

section \<open>The knowledge-base directory\<close>

text \<open>
  \<open>list_resources\<close>. A query that is \<open>None\<close> or empty is false in the two tests
  \<open>if query\<close>: it sends no keyword and filters nothing.
\<close>

definition query_set :: "string option \<Rightarrow> bool" where
  "query_set query = (case query of None \<Rightarrow> False | Some q \<Rightarrow> q \<noteq> [])"

fun list_resources_loop ::
  "world \<Rightarrow> string option \<Rightarrow> dataset list \<Rightarrow> resource list \<Rightarrow> resource list" where
  "list_resources_loop w query [] resources = resources"
| "list_resources_loop w query (d # datasets) resources =
     (let ds_id = (case dataset_id d of None \<Rightarrow> ''None'' | Some v \<Rightarrow> v);
          ds_name = (case dataset_name d of None \<Rightarrow> [] | Some v \<Rightarrow> v);
          ds_description = (case dataset_description d of None \<Rightarrow> [] | Some v \<Rightarrow> v)
      in if query_set query
            \<and> \<not> str_in (lower (unicode_lower w) (the query)) (lower (unicode_lower w) ds_name)
            \<and> \<not> str_in (lower (unicode_lower w) (the query))
                        (lower (unicode_lower w) ds_description)
         then list_resources_loop w query datasets resources
         else list_resources_loop w query datasets
                (resources @ [\<lparr>uri = ''dify://dataset/'' @ ds_id, title = ds_name,
                               description = ds_description\<rparr>]))"

definition list_resources :: "world \<Rightarrow> string option \<Rightarrow> error + resource list" where
  "list_resources w query =
     (case get_datasets w (if query_set query then query else None) of
        Request_Exception \<Rightarrow> Inl Network_error_while_listing
      | Response status body \<Rightarrow>
          if status \<noteq> 200 then Inl (Failed_to_list_Dify_datasets status)
          else (case body of
                  Undecodable \<Rightarrow> Inl Network_error_while_listing
                | Unreadable \<Rightarrow> Inl Listing_traversal_error
                | Payload data \<Rightarrow> Inr (list_resources_loop w query data [])))"

section \<open>The fan-out aggregator\<close>

text \<open>The two loops of \<open>query_relevant_documents\<close> that collect the knowledge-base IDs.\<close>

fun collect_ids :: "world \<Rightarrow> resource list \<Rightarrow> string list \<Rightarrow> string list" where
  "collect_ids w [] knowledge_base_ids = knowledge_base_ids"
| "collect_ids w (r # resources) knowledge_base_ids =
     (case provider_parse_uri (netloc_check w) (uri r) of
        None \<Rightarrow> collect_ids w resources knowledge_base_ids
      | Some kb_id \<Rightarrow>
          if kb_id \<noteq> [] \<and> kb_id \<notin> set knowledge_base_ids
          then collect_ids w resources (knowledge_base_ids @ [kb_id])
          else collect_ids w resources knowledge_base_ids)"

definition resolve_knowledge_base_ids :: "provider \<Rightarrow> world \<Rightarrow> resource list \<Rightarrow> error + string list" where
  "resolve_knowledge_base_ids self w resources =
     (if resources \<noteq> [] then Inr (collect_ids w resources [])
      else (case list_resources w None of
              Inl e \<Rightarrow> Inl (Failed_to_get_knowledge_bases e)
            | Inr all_resources \<Rightarrow>
                Inr (collect_ids w (slice_to (max_knowledge_bases self) all_resources) [])))"

text \<open>
  The loop over the knowledge-base IDs, with its two variables \<open>all_documents\<close> and
  \<open>doc_id_counter\<close>. A request that raises, a status other than 200 and a body that cannot be
  decoded or read all leave both variables as they are. The third component is not a variable of
  the code: it records, in order, the knowledge bases to which a retrieval request has been sent.
\<close>

fun fan_out ::
  "world \<Rightarrow> string \<Rightarrow> string list \<Rightarrow> document list \<times> int \<times> string list
     \<Rightarrow> document list \<times> int \<times> string list" where
  "fan_out w query [] (all_documents, doc_id_counter, posted) =
     (all_documents, doc_id_counter, posted)"
| "fan_out w query (kb_id # kb_ids) (all_documents, doc_id_counter, posted) =
     (case post_retrieve w kb_id query of
        Request_Exception \<Rightarrow>
          fan_out w query kb_ids (all_documents, doc_id_counter, posted @ [kb_id])
      | Response status body \<Rightarrow>
          if status = 200
          then (case body of
                  Payload result \<Rightarrow>
                    (let documents = parse_dify_response result kb_id doc_id_counter
                     in fan_out w query kb_ids
                          (all_documents @ documents, doc_id_counter + int (length documents),
                           posted @ [kb_id]))
                | Undecodable \<Rightarrow>
                    fan_out w query kb_ids (all_documents, doc_id_counter, posted @ [kb_id])
                | Unreadable \<Rightarrow>
                    fan_out w query kb_ids (all_documents, doc_id_counter, posted @ [kb_id]))
          else fan_out w query kb_ids (all_documents, doc_id_counter, posted @ [kb_id]))"

text \<open>
  The ranking, which stands outside the loop's \<open>try\<close>: an exception raised here leaves
  \<open>query_relevant_documents\<close>.

  Where every similarity is a finite number, the key
  \<open>max(chunk.similarity for chunk in doc.chunks) if doc.chunks else 0\<close> is a number, and
  \<open>list.sort(key=..., reverse=True)\<close> reverses the list, sorts it stably in ascending order of
  the key and reverses the result.

  A comparison with \<open>None\<close> raises \<open>TypeError\<close>, and a \<open>None\<close> among the similarities is
  compared as soon as its Document has a second chunk (in \<open>max\<close>) or the list a second Document
  (in the sort). In every other case (a NaN, an infinity, a boolean, a string, an array or an
  object among the similarities) the outcome depends on the values and on the sorting algorithm,
  and is the world's \<open>sort_without_order\<close>.
\<close>

fun finite_number :: "score_value \<Rightarrow> bool" where
  "finite_number (Number x) = True"
| "finite_number v = False"

fun the_number :: "score_value \<Rightarrow> real" where
  "the_number (Number x) = x"
| "the_number v = 0"

definition finite_similarities :: "document list \<Rightarrow> bool" where
  "finite_similarities docs =
     list_all (\<lambda>doc. list_all (\<lambda>c. finite_number (similarity c)) (doc_chunks doc)) docs"

definition none_compared :: "document list \<Rightarrow> bool" where
  "none_compared docs =
     list_ex (\<lambda>doc. list_ex (\<lambda>c. similarity c = Null) (doc_chunks doc)
                    \<and> (2 \<le> length (doc_chunks doc) \<or> 2 \<le> length docs)) docs"

fun py_max :: "real list \<Rightarrow> real" where
  "py_max [] = 0"
| "py_max (x # xs) = fold max xs x"

definition sort_key_of :: "document \<Rightarrow> real" where
  "sort_key_of doc =
     (if doc_chunks doc \<noteq> [] then py_max (map (\<lambda>c. the_number (similarity c)) (doc_chunks doc))
      else 0)"

definition sort_reverse :: "('a \<Rightarrow> real) \<Rightarrow> 'a list \<Rightarrow> 'a list" where
  "sort_reverse key xs = rev (sort_key key (rev xs))"

definition rank_documents :: "world \<Rightarrow> document list \<Rightarrow> error + document list" where
  "rank_documents w all_documents =
     (if finite_similarities all_documents then Inr (sort_reverse sort_key_of all_documents)
      else if none_compared all_documents then Inl Sort_TypeError
      else (case sort_without_order w all_documents of
              None \<Rightarrow> Inl Sort_TypeError
            | Some position \<Rightarrow> Inr (sort_key position all_documents)))"

text \<open>
  \<open>query_relevant_documents\<close>: what the call returns or raises, and, beside it, the knowledge
  bases to which it has sent a retrieval request.
\<close>

definition query_relevant_documents_run ::
  "provider \<Rightarrow> world \<Rightarrow> string \<Rightarrow> resource list \<Rightarrow> (error + document list) \<times> string list" where
  "query_relevant_documents_run self w query resources =
     (case resolve_knowledge_base_ids self w resources of
        Inl e \<Rightarrow> (Inl e, [])
      | Inr knowledge_base_ids \<Rightarrow>
          if knowledge_base_ids = [] then (Inl No_knowledge_bases_available, [])
          else (case fan_out w query knowledge_base_ids ([], 0, []) of
                  (all_documents, doc_id_counter, posted) \<Rightarrow>
                    (case rank_documents w all_documents of
                       Inl e \<Rightarrow> (Inl e, posted)
                     | Inr sorted_documents \<Rightarrow>
                         (let max_total_results = page_size self * int (length knowledge_base_ids)
                          in (Inr (slice_to max_total_results sorted_documents), posted)))))"

definition query_relevant_documents ::
  "provider \<Rightarrow> world \<Rightarrow> string \<Rightarrow> resource list \<Rightarrow> error + document list" where
  "query_relevant_documents self w query resources =
     fst (query_relevant_documents_run self w query resources)"

definition knowledge_bases_queried ::
  "provider \<Rightarrow> world \<Rightarrow> string \<Rightarrow> resource list \<Rightarrow> string list" where
  "knowledge_bases_queried self w query resources =
     snd (query_relevant_documents_run self w query resources)"

section \<open>Auxiliary notions for the statements\<close>

text \<open>What follows the last underscore of a document ID: the running number.\<close>

definition id_suffix :: "string \<Rightarrow> string" where
  "id_suffix s = rev (takeWhile (\<lambda>c. c \<noteq> CHR ''_'') (rev s))"

text \<open>The Document that a record gives when nothing is grouped with it: one chunk, numbered \<open>n\<close>.\<close>

definition single_document :: "string \<Rightarrow> int \<Rightarrow> retrieval_record \<Rightarrow> document" where
  "single_document knowledge_base_id n r =
     \<lparr>doc_id = unique_doc_id knowledge_base_id (case document_id r of None \<Rightarrow> [] | Some v \<Rightarrow> v) n,
      doc_title = (if knowledge_base_id \<noteq> []
                   then ''['' @ knowledge_base_id @ ''] '' @ (case document_name r of None \<Rightarrow> [] | Some v \<Rightarrow> v)
                   else (case document_name r of None \<Rightarrow> [] | Some v \<Rightarrow> v)),
      doc_chunks = [\<lparr>content = (case segment_content r of None \<Rightarrow> [] | Some v \<Rightarrow> v),
                     similarity = (case score r of None \<Rightarrow> Number 0 | Some v \<Rightarrow> v)\<rparr>]\<rparr>"

text \<open>
  A source fails when its request raises, its status is not 200 or its body cannot be decoded
  or read.
\<close>

definition source_fails :: "world \<Rightarrow> string \<Rightarrow> string \<Rightarrow> bool" where
  "source_fails w query kb_id =
     (case post_retrieve w kb_id query of
        Request_Exception \<Rightarrow> True
      | Response status body \<Rightarrow>
          (case body of Payload result \<Rightarrow> status \<noteq> 200 | Undecodable \<Rightarrow> True | Unreadable \<Rightarrow> True))"



text \<open>The Resource that \<open>list_resources\<close> builds from one dataset of the listing.\<close>

definition resource_of :: "dataset \<Rightarrow> resource" where
  "resource_of d =
     \<lparr>uri = ''dify://dataset/'' @ (case dataset_id d of None \<Rightarrow> ''None'' | Some v \<Rightarrow> v),
      title = (case dataset_name d of None \<Rightarrow> [] | Some v \<Rightarrow> v),
      description = (case dataset_description d of None \<Rightarrow> [] | Some v \<Rightarrow> v)\<rparr>"

section \<open>Concrete scenarios\<close>

text \<open>
  Three knowledge bases: \<open>kbA\<close> answers with three records, two of them of the same document
  \<open>d1\<close>; \<open>kbB\<close> answers with one record, again of a document \<open>d1\<close>; \<open>kbC\<close> answers with
  status 500. The directory lists the three of them. All scores are finite numbers, and all
  strings ASCII, so that the three library parameters are never consulted.
\<close>

definition scored_record :: "string \<Rightarrow> score_value \<Rightarrow> string \<Rightarrow> retrieval_record" where
  "scored_record d v c =
     \<lparr>score = Some v, document_id = Some d, document_name = Some ''Report'',
      segment_content = Some c\<rparr>"

definition example_record :: "string \<Rightarrow> real \<Rightarrow> string \<Rightarrow> retrieval_record" where
  "example_record d s c = scored_record d (Number s) c"

definition example_dataset :: "string \<Rightarrow> string \<Rightarrow> dataset" where
  "example_dataset i n =
     \<lparr>dataset_id = Some i, dataset_name = Some n, dataset_description = Some ''Quarterly figures''\<rparr>"

definition example_world :: world where
  "example_world =
     \<lparr>netloc_check = (\<lambda>nl. False),
      unicode_lower = (\<lambda>s. s),
      sort_without_order = (\<lambda>docs. None),
      get_datasets = (\<lambda>keyword.
        Response 200 (Payload [example_dataset ''kbA'' ''Sales'', example_dataset ''kbB'' ''Revenue'',
                               example_dataset ''kbC'' ''Staff''])),
      post_retrieve = (\<lambda>kb_id query.
        if kb_id = ''kbA''
        then Response 200 (Payload [example_record ''d1'' (9 / 10) ''x'',
                                    example_record ''d1'' (4 / 10) ''y'',
                                    example_record ''d2'' (9 / 10) ''z''])
        else if kb_id = ''kbB''
        then Response 200 (Payload [example_record ''d1'' (7 / 10) ''u''])
        else Response 500 Undecodable)\<rparr>"

definition example_resource :: "string \<Rightarrow> resource" where
  "example_resource u = \<lparr>uri = u, title = [], description = []\<rparr>"

definition scored_document :: "string \<Rightarrow> string \<Rightarrow> score_value \<Rightarrow> string \<Rightarrow> document" where
  "scored_document i t v c =
     \<lparr>doc_id = i, doc_title = t, doc_chunks = [\<lparr>content = c, similarity = v\<rparr>]\<rparr>"

definition example_document :: "string \<Rightarrow> string \<Rightarrow> real \<Rightarrow> string \<Rightarrow> document" where
  "example_document i t s c = scored_document i t (Number s) c"

text \<open>
  Scores that are not finite numbers. \<open>kbN\<close> answers with the scores 0.1, NaN and 0.9: the sort
  reverses the three Documents, finds them to be one ascending run already (neither
  \<open>nan < 0.9\<close> nor \<open>0.1 < nan\<close> holds), and reverses them back, so that each stays where it
  was. \<open>kbZ\<close> answers with the scores \<open>null\<close> and 0.4. Every other knowledge base answers
  with status 500.
\<close>

definition odd_scores_world :: world where
  "odd_scores_world =
     \<lparr>netloc_check = (\<lambda>nl. False),
      unicode_lower = (\<lambda>s. s),
      sort_without_order = (\<lambda>docs. Some (\<lambda>doc. 0)),
      get_datasets = (\<lambda>keyword. Request_Exception),
      post_retrieve = (\<lambda>kb_id query.
        if kb_id = ''kbN''
        then Response 200 (Payload [scored_record ''d1'' (Number (1 / 10)) ''x'',
                                    scored_record ''d2'' NaN ''y'',
                                    scored_record ''d3'' (Number (9 / 10)) ''z''])
        else if kb_id = ''kbZ''
        then Response 200 (Payload [scored_record ''d1'' Null ''x'',
                                    scored_record ''d2'' (Number (4 / 10)) ''y''])
        else Response 500 Undecodable)\<rparr>"

text \<open>
  A directory of two datasets, one of which has a name that is not ASCII: \<open>ecole\<close> with an
  acute accent on its first letter. \<open>str.lower\<close> turns the capital E with an acute accent
  (the bytes C3 89) into the small one (C3 A9) and leaves that name as it is.
\<close>

definition accent_world :: world where
  "accent_world =
     \<lparr>netloc_check = (\<lambda>nl. False),
      unicode_lower = (\<lambda>s. if s = [CHR 0xC3, CHR 0x89] then [CHR 0xC3, CHR 0xA9] else s),
      sort_without_order = (\<lambda>docs. None),
      get_datasets = (\<lambda>keyword.
        Response 200 (Payload [example_dataset ''kbE'' ([CHR 0xC3, CHR 0xA9] @ ''cole''),
                               example_dataset ''kbS'' ''Staff''])),
      post_retrieve = (\<lambda>kb_id query. Response 500 Undecodable)\<rparr>"

section \<open>Properties of the string operations\<close>

lemma split_on_not_Nil: "split_on sep s \<noteq> []"
  by (induction s) (auto split: list.splits)

lemma split_on_no_sep: "sep \<notin> set s \<Longrightarrow> split_on sep s = [s]"
  by (induction s) auto

lemma digit_char_inj: "a < 10 \<Longrightarrow> b < 10 \<Longrightarrow> digit_char a = digit_char b \<Longrightarrow> a = b"
proof -
  assume a: "a < 10" and b: "b < 10" and e: "digit_char a = digit_char b"
  have d: "distinct ''0123456789''" by simp
  have "a < length ''0123456789''" "b < length ''0123456789''" using a b by simp_all
  with d e show "a = b" unfolding digit_char_def by (simp only: nth_eq_iff_index_eq)
qed

lemma digit_char_in: "d < 10 \<Longrightarrow> digit_char d \<in> set ''0123456789''"
  unfolding digit_char_def by (rule nth_mem) simp

lemma str_nat_not_Nil: "str_nat n \<noteq> []"
  by (subst str_nat.simps) simp

lemma set_str_nat: "set (str_nat n) \<subseteq> set ''0123456789''"
proof (induction n rule: str_nat.induct)
  case (1 n)
  show ?case
  proof (cases "n < 10")
    case True
    then show ?thesis using digit_char_in [of n] by (subst str_nat.simps) simp
  next
    case False
    have "n mod 10 < 10" by simp
    then have "digit_char (n mod 10) \<in> set ''0123456789''" by (rule digit_char_in)
    with False 1 show ?thesis by (subst str_nat.simps) simp
  qed
qed

lemma str_nat_inj: "str_nat n = str_nat m \<Longrightarrow> n = m"
proof (induction n arbitrary: m rule: str_nat.induct)
  case (1 n)
  show ?case
  proof (cases "n < 10")
    case True
    then have n: "str_nat n = [digit_char n]" by (subst str_nat.simps) simp
    have "m < 10"
    proof (rule ccontr)
      assume "\<not> m < 10"
      then have "str_nat m = str_nat (m div 10) @ [digit_char (m mod 10)]"
        by (subst str_nat.simps) simp
      with n "1.prems" str_nat_not_Nil [of "m div 10"] show False by simp
    qed
    then have "str_nat m = [digit_char m]" by (subst str_nat.simps) simp
    with n "1.prems" True \<open>m < 10\<close> show ?thesis by (simp add: digit_char_inj)
  next
    case False
    then have n: "str_nat n = str_nat (n div 10) @ [digit_char (n mod 10)]"
      by (subst str_nat.simps) simp
    have m: "\<not> m < 10"
    proof
      assume "m < 10"
      then have "str_nat m = [digit_char m]" by (subst str_nat.simps) simp
      with n "1.prems" str_nat_not_Nil [of "n div 10"] show False by simp
    qed
    then have "str_nat m = str_nat (m div 10) @ [digit_char (m mod 10)]"
      by (subst str_nat.simps) simp
    with n "1.prems" have e: "str_nat (n div 10) = str_nat (m div 10)"
      and d: "digit_char (n mod 10) = digit_char (m mod 10)" by simp_all
    from "1.IH" [OF False e] have "n div 10 = m div 10" .
    moreover from d have "n mod 10 = m mod 10" by (intro digit_char_inj) simp_all
    ultimately show ?thesis by (metis div_mult_mod_eq)
  qed
qed

lemma str_int_inj: "str_int i = str_int j \<Longrightarrow> i = j"
proof -
  assume e: "str_int i = str_int j"
  have nd: "\<And>n. hd (str_nat n) \<noteq> CHR ''-''"
  proof -
    fix n
    have "hd (str_nat n) \<in> set (str_nat n)" using str_nat_not_Nil by simp
    with set_str_nat [of n] show "hd (str_nat n) \<noteq> CHR ''-''" by auto
  qed
  show "i = j"
  proof (cases "i < 0")
    case True
    show ?thesis
    proof (cases "j < 0")
      case True
      with \<open>i < 0\<close> e have "nat (- i) = nat (- j)" by (simp add: str_int_def str_nat_inj)
      with True \<open>i < 0\<close> show ?thesis by simp
    next
      case False
      with True e nd [of "nat j"] show ?thesis by (auto simp: str_int_def dest: arg_cong [where f = hd])
    qed
  next
    case False
    show ?thesis
    proof (cases "j < 0")
      case True
      with False e nd [of "nat i"] show ?thesis by (auto simp: str_int_def dest: arg_cong [where f = hd])
    next
      case jn: False
      with False e have "nat i = nat j" by (simp add: str_int_def str_nat_inj)
      with False jn show ?thesis by simp
    qed
  qed
qed

lemma underscore_notin_str_int: "CHR ''_'' \<notin> set (str_int i)"
  using set_str_nat by (auto simp: str_int_def)

lemma id_suffix_unique_doc_id: "id_suffix (unique_doc_id kb orig n) = str_int n"
proof -
  have a: "\<forall>c\<in>set (rev (str_int n)). c \<noteq> CHR ''_''"
    using underscore_notin_str_int [of n] by auto
  have "takeWhile (\<lambda>c. c \<noteq> CHR ''_'') (rev (str_int n) @ CHR ''_'' # rev orig @ CHR ''_'' # rev kb)
      = takeWhile (\<lambda>c. c \<noteq> CHR ''_'') (rev (str_int n))"
    by (rule takeWhile_tail) simp
  also have "\<dots> = rev (str_int n)"
    using a by (simp only: takeWhile_eq_all_conv)
  finally show ?thesis by (simp add: id_suffix_def unique_doc_id_def)
qed

lemma unique_doc_id_inj: "unique_doc_id kb orig n = unique_doc_id kb' orig' n' \<Longrightarrow> n = n'"
  by (metis id_suffix_unique_doc_id str_int_inj)

section \<open>Properties of the response normalizer\<close>

lemma append_chunk_absent: "key \<notin> fst ` set dm \<Longrightarrow> append_chunk key c dm = dm"
  unfolding append_chunk_def by (induction dm) auto

lemma append_chunk_append: "append_chunk key c (xs @ ys) = append_chunk key c xs @ append_chunk key c ys"
  by (simp add: append_chunk_def)

lemma fresh_key:
  assumes "\<forall>k\<in>fst ` set dm. \<exists>j<length dm. id_suffix k = str_int (off + int j)"
  shows "unique_doc_id kb orig (off + int (length dm)) \<notin> fst ` set dm"
proof
  assume "unique_doc_id kb orig (off + int (length dm)) \<in> fst ` set dm"
  with assms obtain j where j: "j < length dm"
    and "id_suffix (unique_doc_id kb orig (off + int (length dm))) = str_int (off + int j)"
    by blast
  then have "str_int (off + int (length dm)) = str_int (off + int j)"
    by (simp add: id_suffix_unique_doc_id)
  then have "off + int (length dm) = off + int j" by (rule str_int_inj)
  with j show False by simp
qed

lemma group_records_step:
  assumes "\<forall>k\<in>fst ` set dm. \<exists>j<length dm. id_suffix k = str_int (off + int j)"
  shows "group_records kb off (r # rs) dm =
         group_records kb off rs
           (dm @ [(doc_id (single_document kb (off + int (length dm)) r),
                   single_document kb (off + int (length dm)) r)])"
proof -
  let ?orig = "case document_id r of None \<Rightarrow> [] | Some v \<Rightarrow> v"
  let ?key = "unique_doc_id kb ?orig (off + int (length dm))"
  have fresh: "?key \<notin> fst ` set dm" using assms by (rule fresh_key)
  then have "append_chunk ?key c dm = dm" for c by (rule append_chunk_absent)
  with fresh show ?thesis
    by (simp add: Let_def append_chunk_append single_document_def)
       (simp add: append_chunk_def)
qed

lemma group_records_closed:
  assumes "\<forall>k\<in>fst ` set dm. \<exists>j<length dm. id_suffix k = str_int (off + int j)"
  shows "group_records kb off rs dm =
         dm @ map (\<lambda>(i, r). (doc_id (single_document kb (off + int i) r),
                              single_document kb (off + int i) r))
                (zip [length dm..<length dm + length rs] rs)"
  using assms
proof (induction rs arbitrary: dm)
  case Nil
  then show ?case by simp
next
  case (Cons r rs)
  let ?d = "single_document kb (off + int (length dm)) r"
  let ?dm = "dm @ [(doc_id ?d, ?d)]"
  have inv: "\<forall>k\<in>fst ` set ?dm. \<exists>j<length ?dm. id_suffix k = str_int (off + int j)"
  proof
    fix k assume "k \<in> fst ` set ?dm"
    then consider "k \<in> fst ` set dm" | "k = doc_id ?d" by auto
    then show "\<exists>j<length ?dm. id_suffix k = str_int (off + int j)"
    proof cases
      case 1
      with Cons.prems obtain j where "j < length dm" "id_suffix k = str_int (off + int j)" by blast
      then show ?thesis by (intro exI [of _ j]) simp
    next
      case 2
      then have "id_suffix k = str_int (off + int (length dm))"
        by (simp add: single_document_def id_suffix_unique_doc_id)
      then show ?thesis by (intro exI [of _ "length dm"]) simp
    qed
  qed
  have "group_records kb off (r # rs) dm = group_records kb off rs ?dm"
    using Cons.prems by (rule group_records_step)
  also have "\<dots> = ?dm @ map (\<lambda>(i, r). (doc_id (single_document kb (off + int i) r),
                              single_document kb (off + int i) r))
                (zip [length ?dm..<length ?dm + length rs] rs)"
    using inv by (rule Cons.IH)
  also have "\<dots> = dm @ map (\<lambda>(i, r). (doc_id (single_document kb (off + int i) r),
                              single_document kb (off + int i) r))
                (zip [length dm..<length dm + length (r # rs)] (r # rs))"
  proof -
    have u: "[length dm..<length dm + length (r # rs)] =
             length dm # [length ?dm..<length ?dm + length rs]"
      by (subst upt_rec) (simp del: upt_Suc)
    show ?thesis unfolding u by (simp del: upt_Suc)
  qed
  finally show ?case .
qed

lemma parse_dify_response_closed:
  "parse_dify_response rs kb off =
     map (\<lambda>(i, r). single_document kb (off + int i) r) (zip [0..<length rs] rs)"
proof -
  have "group_records kb off rs [] =
        [] @ map (\<lambda>(i, r). (doc_id (single_document kb (off + int i) r),
                              single_document kb (off + int i) r))
                (zip [length ([] :: (string \<times> document) list)..<length ([] :: (string \<times> document) list) + length rs] rs)"
    by (rule group_records_closed) simp
  then show ?thesis
    by (simp add: parse_dify_response_def case_prod_unfold comp_def)
qed

lemma length_parse_dify_response: "length (parse_dify_response rs kb off) = length rs"
  by (simp add: parse_dify_response_closed)

lemma parse_dify_response_nth:
  "i < length rs \<Longrightarrow> parse_dify_response rs kb off ! i = single_document kb (off + int i) (rs ! i)"
  by (simp add: parse_dify_response_closed)

lemma suffixes_parse_dify_response:
  "map (\<lambda>d. id_suffix (doc_id d)) (parse_dify_response rs kb off) =
   map (\<lambda>i. str_int (off + int i)) [0..<length rs]"
  by (rule nth_equalityI)
     (simp_all add: length_parse_dify_response parse_dify_response_nth single_document_def
        id_suffix_unique_doc_id)

section \<open>Properties of the fan-out loop, the sort and the slice\<close>

lemma fan_out_skip:
  "source_fails w query kb_id \<Longrightarrow>
   fan_out w query (kb_id # kb_ids) (docs, c, p) = fan_out w query kb_ids (docs, c, p @ [kb_id])"
  by (auto simp: source_fails_def split: response.splits body.splits)


lemma fan_out_all_fail:
  "\<forall>kb\<in>set kb_ids. source_fails w query kb \<Longrightarrow>
   fan_out w query kb_ids (docs, c, p) = (docs, c, p @ kb_ids)"
proof (induction kb_ids arbitrary: p)
  case Nil
  show ?case by simp
next
  case (Cons kb kb_ids)
  then show ?case by (simp add: fan_out_skip del: fan_out.simps)
qed

lemma fan_out_posted:
  "snd (snd (fan_out w query kb_ids (docs, c, p))) = p @ kb_ids"
proof (induction kb_ids arbitrary: docs c p)
  case Nil
  show ?case by simp
next
  case (Cons kb kb_ids)
  show ?case
    by (simp add: Cons.IH Let_def split: response.splits body.splits)
qed


lemma upt_shift: "[a..<a + m] = map (\<lambda>i. a + i) [0..<m]"
  by (induction m) simp_all

lemma upt_numbering:
  "map f [0..<a + m] = map f [0..<a] @ map (\<lambda>i. f (a + i)) [0..<m]"
proof -
  have "[0..<a + m] = [0..<a] @ [a..<a + m]"
    by (rule upt_add_eq_append) simp
  then have "map f [0..<a + m] = map f [0..<a] @ map f [a..<a + m]"
    by simp
  also have "map f [a..<a + m] = map f (map (\<lambda>i. a + i) [0..<m])"
    by (simp only: upt_shift [symmetric])
  finally show ?thesis by (simp add: comp_def)
qed

lemma fan_out_step_cases:
  obtains (skip) "source_fails w query kb"
      "\<And>docs c p. fan_out w query (kb # kb_ids) (docs, c, p) = fan_out w query kb_ids (docs, c, p @ [kb])"
    | (take) result where "post_retrieve w kb query = Response 200 (Payload result)"
      "\<And>docs c p. fan_out w query (kb # kb_ids) (docs, c, p) =
         fan_out w query kb_ids
           (docs @ parse_dify_response result kb c,
            c + int (length (parse_dify_response result kb c)), p @ [kb])"
proof (cases "source_fails w query kb")
  case True
  then show ?thesis using skip fan_out_skip by blast
next
  case False
  then obtain result where r: "post_retrieve w kb query = Response 200 (Payload result)"
    by (auto simp: source_fails_def split: response.splits body.splits)
  then show ?thesis using take by (simp add: Let_def)
qed

lemma fan_out_numbered:
  assumes "map (\<lambda>d. id_suffix (doc_id d)) docs = map (\<lambda>i. str_int (int i)) [0..<length docs]"
  shows "map (\<lambda>d. id_suffix (doc_id d)) (fst (fan_out w query kb_ids (docs, int (length docs), p))) =
         map (\<lambda>i. str_int (int i))
           [0..<length (fst (fan_out w query kb_ids (docs, int (length docs), p)))]"
  using assms
proof (induction kb_ids arbitrary: docs p)
  case Nil
  then show ?case by simp
next
  case (Cons kb kb_ids)
  show ?case
  proof (cases rule: fan_out_step_cases [of w query kb kb_ids])
    case skip
    with Cons show ?thesis by (simp only:)
  next
    case (take result)
    let ?new = "parse_dify_response result kb (int (length docs))"
    have step: "fan_out w query (kb # kb_ids) (docs, int (length docs), p) =
                fan_out w query kb_ids (docs @ ?new, int (length (docs @ ?new)), p @ [kb])"
      by (simp only: take(2) length_append of_nat_add)
    have "map (\<lambda>d. id_suffix (doc_id d)) (docs @ ?new) =
          map (\<lambda>i. str_int (int i)) [0..<length docs] @
          map (\<lambda>i. str_int (int (length docs) + int i)) [0..<length result]"
      by (simp add: Cons.prems suffixes_parse_dify_response)
    also have "\<dots> = map (\<lambda>i. str_int (int i)) [0..<length docs + length result]"
      by (simp add: upt_numbering [of "\<lambda>i. str_int (int i)"])
    finally have "map (\<lambda>d. id_suffix (doc_id d)) (docs @ ?new) =
          map (\<lambda>i. str_int (int i)) [0..<length (docs @ ?new)]"
      by (simp add: length_parse_dify_response)
    then show ?thesis unfolding step by (rule Cons.IH)
  qed
qed

lemma distinct_numbering: "distinct (map (\<lambda>i. str_int (int i)) [0..<n])"
  by (auto simp: distinct_map inj_on_def dest: str_int_inj)

lemma fan_out_distinct_ids:
  "distinct (map doc_id (fst (fan_out w query kb_ids ([], 0, []))))"
proof -
  let ?docs = "fst (fan_out w query kb_ids ([], 0, []))"
  have "map (\<lambda>d. id_suffix (doc_id d)) ?docs = map (\<lambda>i. str_int (int i)) [0..<length ?docs]"
    using fan_out_numbered [of "[]" w query kb_ids "[]"] by simp
  then have "distinct (map id_suffix (map doc_id ?docs))"
    by (simp add: comp_def distinct_numbering)
  then show ?thesis by (simp only: distinct_map)
qed




lemma mset_sort_reverse: "mset (sort_reverse key xs) = mset xs"
  by (simp add: sort_reverse_def)



lemma slice_to_take: "\<exists>k. slice_to n xs = take k xs"
  by (auto simp: slice_to_def)

lemma length_slice_to: "0 \<le> n \<Longrightarrow> length (slice_to n xs) \<le> nat n"
  by (simp add: slice_to_def)




lemma rank_documents_Nil: "rank_documents w [] = Inr []"
  by (simp add: rank_documents_def finite_similarities_def sort_reverse_def)

lemma mset_rank_documents: "rank_documents w docs = Inr ranked \<Longrightarrow> mset ranked = mset docs"
  by (auto simp: rank_documents_def mset_sort_reverse split: if_splits option.splits)

lemma query_relevant_documents_cases:
  assumes "query_relevant_documents self w query resources = Inr docs"
  obtains kb_ids ranked where "resolve_knowledge_base_ids self w resources = Inr kb_ids"
    and "kb_ids \<noteq> []"
    and "rank_documents w (fst (fan_out w query kb_ids ([], 0, []))) = Inr ranked"
    and "docs = slice_to (page_size self * int (length kb_ids)) ranked"
  using assms
  by (auto simp: query_relevant_documents_def query_relevant_documents_run_def Let_def
           split: sum.splits if_splits prod.splits)

section \<open>Document identities\<close>

lemma example_run:
  "query_relevant_documents \<lparr>page_size = 10, max_knowledge_bases = 10\<rparr> example_world ''revenue''
          [example_resource ''dify://dataset/kbA'', example_resource ''dify://dataset/kbB'',
           example_resource ''dify://dataset/kbC'']
   = Inr [example_document ''kbA_d1_0'' ''[kbA] Report'' (9 / 10) ''x'',
          example_document ''kbA_d2_2'' ''[kbA] Report'' (9 / 10) ''z'',
          example_document ''kbB_d1_3'' ''[kbB] Report'' (7 / 10) ''u'',
          example_document ''kbA_d1_1'' ''[kbA] Report'' (4 / 10) ''y'']"
  by code_simp



lemma distinct_ids_rearranged:
  "mset ranked = mset docs \<Longrightarrow> distinct (map doc_id docs) \<Longrightarrow> distinct (map doc_id ranked)"
proof -
  assume m: "mset ranked = mset docs" and d: "distinct (map doc_id docs)"
  from m have "mset (map doc_id ranked) = mset (map doc_id docs)" by simp
  then have "distinct (map doc_id ranked) = distinct (map doc_id docs)"
    by (rule mset_eq_imp_distinct_iff)
  with d show ?thesis by blast
qed

lemma distinct_ids_slice_to:
  "distinct (map doc_id xs) \<Longrightarrow> distinct (map doc_id (slice_to n xs))"
proof -
  assume d: "distinct (map doc_id xs)"
  obtain k where "slice_to n xs = take k xs" using slice_to_take by blast
  then have "map doc_id (slice_to n xs) = take k (map doc_id xs)" by (simp add: take_map)
  with d show ?thesis by simp
qed

text \<open>
  C7. The Document ids in the sequence that one call of \<open>query_relevant_documents\<close> returns are
  pairwise distinct, whatever the resources, the configuration and the answers of the sources:
  each id ends in its own running number.
\<close>

theorem document_ids_distinct:
  assumes "query_relevant_documents self w query resources = Inr docs"
  shows "distinct (map doc_id docs)"
proof -
  from assms obtain kb_ids ranked where
    ranked: "rank_documents w (fst (fan_out w query kb_ids ([], 0, []))) = Inr ranked"
    and docs: "docs = slice_to (page_size self * int (length kb_ids)) ranked"
    by (rule query_relevant_documents_cases)
  have "distinct (map doc_id (fst (fan_out w query kb_ids ([], 0, []))))"
    by (rule fan_out_distinct_ids)
  with mset_rank_documents [OF ranked] have "distinct (map doc_id ranked)"
    by (rule distinct_ids_rearranged)
  then show ?thesis unfolding docs by (rule distinct_ids_slice_to)
qed

theorem document_ids_distinct_witness:
  "query_relevant_documents \<lparr>page_size = 10, max_knowledge_bases = 10\<rparr> example_world ''revenue''
          [example_resource ''dify://dataset/kbA'', example_resource ''dify://dataset/kbB'',
           example_resource ''dify://dataset/kbC'']
   = Inr [example_document ''kbA_d1_0'' ''[kbA] Report'' (9 / 10) ''x'',
          example_document ''kbA_d2_2'' ''[kbA] Report'' (9 / 10) ''z'',
          example_document ''kbB_d1_3'' ''[kbB] Report'' (7 / 10) ''u'',
          example_document ''kbA_d1_1'' ''[kbA] Report'' (4 / 10) ''y'']
   \<and> distinct (map doc_id
         [example_document ''kbA_d1_0'' ''[kbA] Report'' (9 / 10) ''x'',
          example_document ''kbA_d2_2'' ''[kbA] Report'' (9 / 10) ''z'',
          example_document ''kbB_d1_3'' ''[kbB] Report'' (7 / 10) ''u'',
          example_document ''kbA_d1_1'' ''[kbA] Report'' (4 / 10) ''y''])"
  using example_run document_ids_distinct [OF example_run] by (rule conjI)

section \<open>Ranking and truncation\<close>







text \<open>
  C5, as stated, fails for a negative page size, which the constructor accepts: with
  \<open>page_size = -1\<close> and the one target \<open>kbA\<close> the slice \<open>[:-1]\<close> drops the last of three
  Documents and returns two, more than \<open>-1 \<times> 1\<close>.
\<close>

theorem result_length_negative_page_size:
  "resolve_knowledge_base_ids \<lparr>page_size = - 1, max_knowledge_bases = 10\<rparr> example_world
          [example_resource ''dify://dataset/kbA'']
     = Inr [''kbA'']
   \<and> query_relevant_documents \<lparr>page_size = - 1, max_knowledge_bases = 10\<rparr> example_world ''revenue''
          [example_resource ''dify://dataset/kbA'']
     = Inr [example_document ''kbA_d1_0'' ''[kbA] Report'' (9 / 10) ''x'',
            example_document ''kbA_d2_2'' ''[kbA] Report'' (9 / 10) ''z'']
   \<and> \<not> int (length [example_document ''kbA_d1_0'' ''[kbA] Report'' (9 / 10) ''x'',
                      example_document ''kbA_d2_2'' ''[kbA] Report'' (9 / 10) ''z''])
        \<le> page_size \<lparr>page_size = - 1, max_knowledge_bases = 10\<rparr> * int (length [''kbA''])"
  by code_simp

text \<open>
  C5, amended. When the page size is not negative, the length of the sequence returned by
  \<open>query_relevant_documents\<close> is at most the page size times the number of knowledge-base IDs
  resolved before any source is queried, whatever the sources answer afterwards.
\<close>

theorem result_length_bounded:
  assumes "0 \<le> page_size self"
    and "resolve_knowledge_base_ids self w resources = Inr kb_ids"
    and "query_relevant_documents self w query resources = Inr docs"
  shows "int (length docs) \<le> page_size self * int (length kb_ids)"
proof -
  from assms(2,3) obtain ranked
    where docs: "docs = slice_to (page_size self * int (length kb_ids)) ranked"
    by (auto elim: query_relevant_documents_cases)
  have n: "0 \<le> page_size self * int (length kb_ids)" using assms(1) by simp
  have "length (slice_to (page_size self * int (length kb_ids)) ranked)
        \<le> nat (page_size self * int (length kb_ids))"
    using n by (rule length_slice_to)
  with n show ?thesis unfolding docs by linarith
qed

theorem result_length_bounded_witness:
  "(0 :: int) \<le> page_size \<lparr>page_size = 1, max_knowledge_bases = 10\<rparr>
   \<and> resolve_knowledge_base_ids \<lparr>page_size = 1, max_knowledge_bases = 10\<rparr> example_world
          [example_resource ''dify://dataset/kbC'', example_resource ''dify://dataset/kbA'']
     = Inr [''kbC'', ''kbA'']
   \<and> query_relevant_documents \<lparr>page_size = 1, max_knowledge_bases = 10\<rparr> example_world ''revenue''
          [example_resource ''dify://dataset/kbC'', example_resource ''dify://dataset/kbA'']
     = Inr [example_document ''kbA_d1_0'' ''[kbA] Report'' (9 / 10) ''x'',
            example_document ''kbA_d2_2'' ''[kbA] Report'' (9 / 10) ''z'']
   \<and> int (length [example_document ''kbA_d1_0'' ''[kbA] Report'' (9 / 10) ''x'',
                    example_document ''kbA_d2_2'' ''[kbA] Report'' (9 / 10) ''z''])
        \<le> page_size \<lparr>page_size = 1, max_knowledge_bases = 10\<rparr> * int (length [''kbC'', ''kbA''])"
proof -
  have p: "(0 :: int) \<le> page_size \<lparr>page_size = 1, max_knowledge_bases = 10\<rparr>" by simp
  have t: "resolve_knowledge_base_ids \<lparr>page_size = 1, max_knowledge_bases = 10\<rparr> example_world
          [example_resource ''dify://dataset/kbC'', example_resource ''dify://dataset/kbA'']
     = Inr [''kbC'', ''kbA'']" by code_simp
  have q: "query_relevant_documents \<lparr>page_size = 1, max_knowledge_bases = 10\<rparr> example_world ''revenue''
          [example_resource ''dify://dataset/kbC'', example_resource ''dify://dataset/kbA'']
     = Inr [example_document ''kbA_d1_0'' ''[kbA] Report'' (9 / 10) ''x'',
            example_document ''kbA_d2_2'' ''[kbA] Report'' (9 / 10) ''z'']" by code_simp
  from p t q result_length_bounded [OF p t q] show ?thesis by blast
qed

section \<open>Failure isolation\<close>

text \<open>
  C4. When the resolution of the targets ends with no knowledge-base ID,
  \<open>query_relevant_documents\<close> raises "No knowledge bases available for querying"; when it ends
  with at least one ID and the query of every one of them fails, the call returns the empty list.
\<close>

theorem no_targets_raises_all_failing_returns_empty:
  "(resolve_knowledge_base_ids self w resources = Inr [] \<longrightarrow>
      query_relevant_documents self w query resources = Inl No_knowledge_bases_available)
   \<and> (resolve_knowledge_base_ids self w resources = Inr kb_ids \<and> kb_ids \<noteq> []
        \<and> (\<forall>kb\<in>set kb_ids. source_fails w query kb) \<longrightarrow>
      query_relevant_documents self w query resources = Inr [])"
proof (intro conjI impI)
  assume "resolve_knowledge_base_ids self w resources = Inr []"
  then show "query_relevant_documents self w query resources = Inl No_knowledge_bases_available"
    by (simp add: query_relevant_documents_def query_relevant_documents_run_def)
next
  assume a: "resolve_knowledge_base_ids self w resources = Inr kb_ids \<and> kb_ids \<noteq> []
        \<and> (\<forall>kb\<in>set kb_ids. source_fails w query kb)"
  then have "fan_out w query kb_ids ([], 0, []) = ([], 0, [] @ kb_ids)"
    by (intro fan_out_all_fail) simp
  with a show "query_relevant_documents self w query resources = Inr []"
    by (simp add: query_relevant_documents_def query_relevant_documents_run_def
          rank_documents_Nil slice_to_def Let_def)
qed

theorem no_targets_raises_all_failing_returns_empty_witness:
  "resolve_knowledge_base_ids \<lparr>page_size = 10, max_knowledge_bases = 10\<rparr> example_world
       [example_resource ''https://dataset/kbA''] = Inr []
   \<and> query_relevant_documents \<lparr>page_size = 10, max_knowledge_bases = 10\<rparr> example_world ''revenue''
       [example_resource ''https://dataset/kbA''] = Inl No_knowledge_bases_available
   \<and> resolve_knowledge_base_ids \<lparr>page_size = 10, max_knowledge_bases = 10\<rparr> example_world
       [example_resource ''dify://dataset/kbC'', example_resource ''dify://dataset/kbD'']
       = Inr [''kbC'', ''kbD'']
   \<and> [''kbC'', ''kbD''] \<noteq> []
   \<and> source_fails example_world ''revenue'' ''kbC''
   \<and> source_fails example_world ''revenue'' ''kbD''
   \<and> query_relevant_documents \<lparr>page_size = 10, max_knowledge_bases = 10\<rparr> example_world ''revenue''
       [example_resource ''dify://dataset/kbC'', example_resource ''dify://dataset/kbD''] = Inr []"
proof -
  have a: "resolve_knowledge_base_ids \<lparr>page_size = 10, max_knowledge_bases = 10\<rparr> example_world
       [example_resource ''https://dataset/kbA''] = Inr []" by code_simp
  have b: "resolve_knowledge_base_ids \<lparr>page_size = 10, max_knowledge_bases = 10\<rparr> example_world
       [example_resource ''dify://dataset/kbC'', example_resource ''dify://dataset/kbD'']
       = Inr [''kbC'', ''kbD'']" by code_simp
  have c: "[''kbC'', ''kbD''] \<noteq> []" by simp
  have d1: "source_fails example_world ''revenue'' ''kbC''"
    and d2: "source_fails example_world ''revenue'' ''kbD''"
    by (simp_all add: source_fails_def example_world_def)
  then have d: "\<forall>kb\<in>set [''kbC'', ''kbD'']. source_fails example_world ''revenue'' kb"
    by simp
  from a b c d d1 d2
    no_targets_raises_all_failing_returns_empty
      [of "\<lparr>page_size = 10, max_knowledge_bases = 10\<rparr>" example_world
          "[example_resource ''https://dataset/kbA'']" "''revenue''" "[]"]
    no_targets_raises_all_failing_returns_empty
      [of "\<lparr>page_size = 10, max_knowledge_bases = 10\<rparr>" example_world
          "[example_resource ''dify://dataset/kbC'', example_resource ''dify://dataset/kbD'']"
          "''revenue''" "[''kbC'', ''kbD'']"]
  show ?thesis by blast
qed


text \<open>
  The ranking is outside the loop's \<open>try\<close>: with the two targets \<open>kbC\<close> (which fails) and \<open>kbZ\<close>
  (which answers with the scores \<open>null\<close> and 0.4) the sort compares \<open>None\<close> with a float, and
  the call raises its \<open>TypeError\<close>.
\<close>

lemma surviving_null_score_raises:
  "resolve_knowledge_base_ids \<lparr>page_size = 10, max_knowledge_bases = 10\<rparr> odd_scores_world
       [example_resource ''dify://dataset/kbC'', example_resource ''dify://dataset/kbZ'']
     = Inr [''kbC'', ''kbZ'']
   \<and> source_fails odd_scores_world ''revenue'' ''kbC''
   \<and> \<not> source_fails odd_scores_world ''revenue'' ''kbZ''
   \<and> query_relevant_documents \<lparr>page_size = 10, max_knowledge_bases = 10\<rparr> odd_scores_world ''revenue''
       [example_resource ''dify://dataset/kbC'', example_resource ''dify://dataset/kbZ'']
     = Inl Sort_TypeError"
  by code_simp



section \<open>Target resolution\<close>

lemma set_collect_ids:
  "set (collect_ids w resources ids) =
     set ids \<union> {kb. kb \<noteq> [] \<and> (\<exists>r\<in>set resources. provider_parse_uri (netloc_check w) (uri r) = Some kb)}"
proof (induction resources arbitrary: ids)
  case Nil
  show ?case by simp
next
  case (Cons r resources)
  show ?case
  proof (cases "provider_parse_uri (netloc_check w) (uri r)")
    case None
    then show ?thesis by (simp add: Cons.IH)
  next
    case (Some kb_id)
    then show ?thesis by (auto simp: Cons.IH)
  qed
qed

lemma distinct_collect_ids:
  "distinct ids \<Longrightarrow> distinct (collect_ids w resources ids)"
proof (induction resources arbitrary: ids)
  case Nil
  then show ?case by simp
next
  case (Cons r resources)
  then show ?case by (simp split: option.splits)
qed

lemma length_collect_ids:
  "length (collect_ids w resources ids) \<le> length ids + length resources"
proof (induction resources arbitrary: ids)
  case Nil
  show ?case by simp
next
  case (Cons r resources)
  have "length (collect_ids w resources ids) \<le> length ids + length resources"
    and "\<And>k. length (collect_ids w resources (ids @ [k])) \<le> length (ids @ [k]) + length resources"
    by (rule Cons.IH)+
  then show ?case by (auto split: option.splits simp: le_Suc_eq)
qed

text \<open>
  C10, as stated, fails for a resource whose URI decodes to the empty string, an ID that is not
  null and has not been seen: the test \<open>if kb_id\<close> is false for it. Of the two resources
  \<open>dify://dataset/kbA/\<close> and \<open>dify://dataset/kbB\<close> the first decodes to the empty string and
  only \<open>kbB\<close> is queried.
\<close>

theorem empty_id_is_no_target:
  "provider_parse_uri (netloc_check example_world) ''dify://dataset/kbA/'' = Some []
   \<and> resolve_knowledge_base_ids \<lparr>page_size = 10, max_knowledge_bases = 10\<rparr> example_world
       [example_resource ''dify://dataset/kbA/'', example_resource ''dify://dataset/kbB'']
     = Inr [''kbB'']
   \<and> knowledge_bases_queried \<lparr>page_size = 10, max_knowledge_bases = 10\<rparr> example_world ''revenue''
       [example_resource ''dify://dataset/kbA/'', example_resource ''dify://dataset/kbB'']
     = [''kbB'']
   \<and> [] \<notin> set [''kbB'']"
  by code_simp

lemma knowledge_bases_queried_resolved:
  assumes "resolve_knowledge_base_ids self w resources = Inr kb_ids"
  shows "knowledge_bases_queried self w query resources = kb_ids"
proof (cases "kb_ids = []")
  case True
  with assms show ?thesis
    by (simp add: knowledge_bases_queried_def query_relevant_documents_run_def)
next
  case False
  obtain docs c p where f: "fan_out w query kb_ids ([], 0, []) = (docs, c, p)"
    by (cases "fan_out w query kb_ids ([], 0, [])")
  have "snd (snd (fan_out w query kb_ids ([], 0, []))) = [] @ kb_ids"
    by (rule fan_out_posted)
  with f have "p = kb_ids" by simp
  with assms False f show ?thesis
    by (simp add: knowledge_bases_queried_def query_relevant_documents_run_def Let_def
             split: sum.splits)
qed

lemma query_relevant_documents_resolved:
  assumes "resolve_knowledge_base_ids self w resources = Inr kb_ids" and "kb_ids \<noteq> []"
  shows "query_relevant_documents self w query resources =
           (case rank_documents w (fst (fan_out w query kb_ids ([], 0, []))) of
              Inl e \<Rightarrow> Inl e
            | Inr ranked \<Rightarrow> Inr (slice_to (page_size self * int (length kb_ids)) ranked))"
  using assms
  by (cases "fan_out w query kb_ids ([], 0, [])")
     (simp add: query_relevant_documents_def query_relevant_documents_run_def Let_def
           split: sum.splits)

lemma run_without_limit:
  "resources \<noteq> [] \<Longrightarrow>
   query_relevant_documents_run (self\<lparr>max_knowledge_bases := m\<rparr>) w query resources =
   query_relevant_documents_run self w query resources"
  by (simp add: query_relevant_documents_run_def resolve_knowledge_base_ids_def Let_def
           split: prod.splits sum.splits)

text \<open>
  C10, amended. With a non-empty explicit resources list the limit \<open>max_knowledge_bases\<close> plays
  no part in the call: the targets are exactly the distinct non-empty IDs that the resources
  decode to, a retrieval request is sent to every one of them, the Documents are ranked and cut
  from the answers of all of them, and the whole outcome is the same under any other limit. With
  an empty list the targets, and the requests, are those decoded from the directory listing cut
  to the limit, so that a non-negative limit bounds their number.
\<close>

theorem explicit_resources_not_capped:
  "(resources \<noteq> [] \<longrightarrow>
      distinct (collect_ids w resources [])
      \<and> set (collect_ids w resources []) = {kb. kb \<noteq> [] \<and>
            (\<exists>r\<in>set resources. provider_parse_uri (netloc_check w) (uri r) = Some kb)}
      \<and> resolve_knowledge_base_ids self w resources = Inr (collect_ids w resources [])
      \<and> knowledge_bases_queried self w query resources = collect_ids w resources []
      \<and> query_relevant_documents_run (self\<lparr>max_knowledge_bases := m\<rparr>) w query resources =
          query_relevant_documents_run self w query resources
      \<and> (collect_ids w resources [] \<noteq> [] \<longrightarrow>
          query_relevant_documents self w query resources =
            (case rank_documents w (fst (fan_out w query (collect_ids w resources []) ([], 0, []))) of
               Inl e \<Rightarrow> Inl e
             | Inr ranked \<Rightarrow>
                 Inr (slice_to (page_size self * int (length (collect_ids w resources []))) ranked))))
   \<and> (list_resources w None = Inr all_resources \<longrightarrow>
      resolve_knowledge_base_ids self w [] =
        Inr (collect_ids w (slice_to (max_knowledge_bases self) all_resources) [])
      \<and> knowledge_bases_queried self w query [] =
        collect_ids w (slice_to (max_knowledge_bases self) all_resources) []
      \<and> (0 \<le> max_knowledge_bases self \<longrightarrow>
           int (length (collect_ids w (slice_to (max_knowledge_bases self) all_resources) []))
             \<le> max_knowledge_bases self))"
proof (intro conjI impI)
  show "distinct (collect_ids w resources [])"
    by (rule distinct_collect_ids) simp
next
  show "set (collect_ids w resources []) = {kb. kb \<noteq> [] \<and>
            (\<exists>r\<in>set resources. provider_parse_uri (netloc_check w) (uri r) = Some kb)}"
    by (simp add: set_collect_ids)
next
  assume "resources \<noteq> []"
  then show r: "resolve_knowledge_base_ids self w resources = Inr (collect_ids w resources [])"
    by (simp add: resolve_knowledge_base_ids_def)
  then show "knowledge_bases_queried self w query resources = collect_ids w resources []"
    by (rule knowledge_bases_queried_resolved)
  show "query_relevant_documents_run (self\<lparr>max_knowledge_bases := m\<rparr>) w query resources =
          query_relevant_documents_run self w query resources"
    using \<open>resources \<noteq> []\<close> by (rule run_without_limit)
  assume "collect_ids w resources [] \<noteq> []"
  with r show "query_relevant_documents self w query resources =
            (case rank_documents w (fst (fan_out w query (collect_ids w resources []) ([], 0, []))) of
               Inl e \<Rightarrow> Inl e
             | Inr ranked \<Rightarrow>
                 Inr (slice_to (page_size self * int (length (collect_ids w resources []))) ranked))"
    by (rule query_relevant_documents_resolved)
next
  assume "list_resources w None = Inr all_resources"
  then show r: "resolve_knowledge_base_ids self w [] =
        Inr (collect_ids w (slice_to (max_knowledge_bases self) all_resources) [])"
    by (simp add: resolve_knowledge_base_ids_def)
  then show "knowledge_bases_queried self w query [] =
        collect_ids w (slice_to (max_knowledge_bases self) all_resources) []"
    by (rule knowledge_bases_queried_resolved)
next
  assume m: "0 \<le> max_knowledge_bases self"
  let ?cut = "slice_to (max_knowledge_bases self) all_resources"
  have "length (collect_ids w ?cut []) \<le> length ([] :: string list) + length ?cut"
    by (rule length_collect_ids)
  moreover have "length ?cut \<le> nat (max_knowledge_bases self)"
    using m by (rule length_slice_to)
  ultimately show "int (length (collect_ids w ?cut [])) \<le> max_knowledge_bases self"
    using m by simp
qed

theorem explicit_resources_not_capped_witness:
  "[example_resource ''dify://dataset/kbA'', example_resource ''dify://dataset/kbB'',
    example_resource ''dify://dataset/kbA'', example_resource ''dify://dataset/kbC''] \<noteq> []
   \<and> knowledge_bases_queried \<lparr>page_size = 10, max_knowledge_bases = 1\<rparr> example_world ''revenue''
       [example_resource ''dify://dataset/kbA'', example_resource ''dify://dataset/kbB'',
        example_resource ''dify://dataset/kbA'', example_resource ''dify://dataset/kbC'']
     = [''kbA'', ''kbB'', ''kbC'']
   \<and> query_relevant_documents \<lparr>page_size = 10, max_knowledge_bases = 1\<rparr> example_world ''revenue''
       [example_resource ''dify://dataset/kbA'', example_resource ''dify://dataset/kbB'',
        example_resource ''dify://dataset/kbA'', example_resource ''dify://dataset/kbC'']
     = Inr [example_document ''kbA_d1_0'' ''[kbA] Report'' (9 / 10) ''x'',
            example_document ''kbA_d2_2'' ''[kbA] Report'' (9 / 10) ''z'',
            example_document ''kbB_d1_3'' ''[kbB] Report'' (7 / 10) ''u'',
            example_document ''kbA_d1_1'' ''[kbA] Report'' (4 / 10) ''y'']
   \<and> query_relevant_documents_run
       (\<lparr>page_size = 10, max_knowledge_bases = 1\<rparr>\<lparr>max_knowledge_bases := 0\<rparr>) example_world
       ''revenue''
       [example_resource ''dify://dataset/kbA'', example_resource ''dify://dataset/kbB'',
        example_resource ''dify://dataset/kbA'', example_resource ''dify://dataset/kbC'']
     = (Inr [example_document ''kbA_d1_0'' ''[kbA] Report'' (9 / 10) ''x'',
             example_document ''kbA_d2_2'' ''[kbA] Report'' (9 / 10) ''z'',
             example_document ''kbB_d1_3'' ''[kbB] Report'' (7 / 10) ''u'',
             example_document ''kbA_d1_1'' ''[kbA] Report'' (4 / 10) ''y''],
        [''kbA'', ''kbB'', ''kbC''])
   \<and> list_resources example_world None
     = Inr [\<lparr>uri = ''dify://dataset/kbA'', title = ''Sales'', description = ''Quarterly figures''\<rparr>,
            \<lparr>uri = ''dify://dataset/kbB'', title = ''Revenue'', description = ''Quarterly figures''\<rparr>,
            \<lparr>uri = ''dify://dataset/kbC'', title = ''Staff'', description = ''Quarterly figures''\<rparr>]
   \<and> knowledge_bases_queried \<lparr>page_size = 10, max_knowledge_bases = 1\<rparr> example_world ''revenue'' []
     = [''kbA'']
   \<and> (0 :: int) \<le> max_knowledge_bases \<lparr>page_size = 10, max_knowledge_bases = 1\<rparr>
   \<and> int (length [''kbA'']) \<le> max_knowledge_bases \<lparr>page_size = 10, max_knowledge_bases = 1\<rparr>"
proof -
  let ?self = "\<lparr>page_size = 10, max_knowledge_bases = 1\<rparr>"
  let ?rs = "[example_resource ''dify://dataset/kbA'', example_resource ''dify://dataset/kbB'',
        example_resource ''dify://dataset/kbA'', example_resource ''dify://dataset/kbC'']"
  let ?all = "[\<lparr>uri = ''dify://dataset/kbA'', title = ''Sales'', description = ''Quarterly figures''\<rparr>,
            \<lparr>uri = ''dify://dataset/kbB'', title = ''Revenue'', description = ''Quarterly figures''\<rparr>,
            \<lparr>uri = ''dify://dataset/kbC'', title = ''Staff'', description = ''Quarterly figures''\<rparr>]"
  let ?docs = "[example_document ''kbA_d1_0'' ''[kbA] Report'' (9 / 10) ''x'',
             example_document ''kbA_d2_2'' ''[kbA] Report'' (9 / 10) ''z'',
             example_document ''kbB_d1_3'' ''[kbB] Report'' (7 / 10) ''u'',
             example_document ''kbA_d1_1'' ''[kbA] Report'' (4 / 10) ''y'']"
  have ne: "?rs \<noteq> []" by simp
  have ids: "collect_ids example_world ?rs [] = [''kbA'', ''kbB'', ''kbC'']" by code_simp
  have run: "query_relevant_documents_run ?self example_world ''revenue'' ?rs
               = (Inr ?docs, [''kbA'', ''kbB'', ''kbC''])" by code_simp
  have l: "list_resources example_world None = Inr ?all" by code_simp
  have c: "collect_ids example_world (slice_to (max_knowledge_bases ?self) ?all) [] = [''kbA'']"
    by code_simp
  have m: "(0 :: int) \<le> max_knowledge_bases ?self" by simp
  note inst = explicit_resources_not_capped [of ?rs example_world ?self "''revenue''" 0 ?all]
  from inst ne have "knowledge_bases_queried ?self example_world ''revenue'' ?rs
      = collect_ids example_world ?rs []"
    by blast
  with ids have a: "knowledge_bases_queried ?self example_world ''revenue'' ?rs
      = [''kbA'', ''kbB'', ''kbC'']"
    by (simp only:)
  from run have q: "query_relevant_documents ?self example_world ''revenue'' ?rs = Inr ?docs"
    by (simp only: query_relevant_documents_def fst_conv)
  from inst ne have "query_relevant_documents_run (?self\<lparr>max_knowledge_bases := 0\<rparr>)
      example_world ''revenue'' ?rs = query_relevant_documents_run ?self example_world ''revenue'' ?rs"
    by blast
  with run have b: "query_relevant_documents_run (?self\<lparr>max_knowledge_bases := 0\<rparr>)
      example_world ''revenue'' ?rs = (Inr ?docs, [''kbA'', ''kbB'', ''kbC''])"
    by (simp only:)
  from inst l have "knowledge_bases_queried ?self example_world ''revenue'' [] =
      collect_ids example_world (slice_to (max_knowledge_bases ?self) ?all) []"
    by blast
  with c have d: "knowledge_bases_queried ?self example_world ''revenue'' [] = [''kbA'']"
    by (simp only:)
  from inst l m have "int (length (collect_ids example_world
      (slice_to (max_knowledge_bases ?self) ?all) [])) \<le> max_knowledge_bases ?self"
    by blast
  with c have e: "int (length [''kbA'']) \<le> max_knowledge_bases ?self"
    by (simp only:)
  from ne a q b l d m e show ?thesis by (intro conjI)
qed

section \<open>The directory's client-side filter\<close>

lemma str_in_iff: "str_in needle hay \<longleftrightarrow> (\<exists>before after. hay = before @ needle @ after)"
proof -
  have "str_in needle hay \<longleftrightarrow> (\<exists>zs. suffix zs hay \<and> prefix needle zs)"
    by (auto simp: str_in_def list_ex_iff in_set_suffixes)
  also have "\<dots> \<longleftrightarrow> (\<exists>before after. hay = before @ needle @ after)"
    by (auto simp: suffix_def prefix_def)
  finally show ?thesis .
qed

lemma str_in_Nil: "str_in [] hay"
proof -
  have "hay = [] @ [] @ hay" by simp
  then show ?thesis unfolding str_in_iff by blast
qed

lemma lower_Nil: "lower u [] = []"
  by (simp add: lower_def ascii_lower_def)

lemma list_resources_loop_closed:
  "list_resources_loop w query datasets resources =
     resources @ map resource_of
       (filter (\<lambda>d. \<not> (query_set query
                  \<and> \<not> str_in (lower (unicode_lower w) (the query))
                            (lower (unicode_lower w) (title (resource_of d)))
                  \<and> \<not> str_in (lower (unicode_lower w) (the query))
                            (lower (unicode_lower w) (description (resource_of d)))))
          datasets)"
  by (induction datasets arbitrary: resources) (simp_all add: resource_of_def Let_def)

lemma list_resources_Some_closed:
  "list_resources_loop w (Some q) datasets [] =
     map resource_of
       (filter (\<lambda>d. str_in (lower (unicode_lower w) q) (lower (unicode_lower w) (title (resource_of d)))
                    \<or> str_in (lower (unicode_lower w) q)
                          (lower (unicode_lower w) (description (resource_of d))))
          datasets)"
proof (cases "q = []")
  case True
  then show ?thesis
    by (simp add: list_resources_loop_closed query_set_def lower_Nil str_in_Nil)
next
  case False
  then show ?thesis
    by (simp add: list_resources_loop_closed query_set_def)
qed

text \<open>
  C9. When \<open>list_resources\<close> is called with a query and returns, its result is the server's
  datasets, in the server's order, that pass the client-side filter: the lower-cased query occurs
  in the lower-cased name or in the lower-cased description, whatever \<open>str.lower\<close> does to the
  strings that are not ASCII. So every Resource of the result satisfies the filter, and a dataset
  that matches neither is left out.
\<close>

theorem list_resources_client_side_filter:
  assumes "list_resources w (Some q) = Inr resources"
  shows "(\<forall>r\<in>set resources.
            str_in (lower (unicode_lower w) q) (lower (unicode_lower w) (title r))
            \<or> str_in (lower (unicode_lower w) q) (lower (unicode_lower w) (description r)))
       \<and> (\<exists>data. get_datasets w (if q \<noteq> [] then Some q else None) = Response 200 (Payload data)
            \<and> resources = map resource_of
                 (filter (\<lambda>d. str_in (lower (unicode_lower w) q)
                                  (lower (unicode_lower w) (title (resource_of d)))
                              \<or> str_in (lower (unicode_lower w) q)
                                  (lower (unicode_lower w) (description (resource_of d)))) data))"
proof -
  from assms obtain data
    where g: "get_datasets w (if q \<noteq> [] then Some q else None) = Response 200 (Payload data)"
      and r: "resources = list_resources_loop w (Some q) data []"
    by (auto simp: list_resources_def query_set_def
             split: response.splits if_splits body.splits)
  from r have c: "resources = map resource_of
                 (filter (\<lambda>d. str_in (lower (unicode_lower w) q)
                                  (lower (unicode_lower w) (title (resource_of d)))
                              \<or> str_in (lower (unicode_lower w) q)
                                  (lower (unicode_lower w) (description (resource_of d)))) data)"
    by (simp only: list_resources_Some_closed)
  then have "\<forall>r\<in>set resources.
            str_in (lower (unicode_lower w) q) (lower (unicode_lower w) (title r))
            \<or> str_in (lower (unicode_lower w) q) (lower (unicode_lower w) (description r))"
    by auto
  with g c show ?thesis by blast
qed

theorem list_resources_client_side_filter_witness:
  "list_resources example_world (Some ''REV'')
     = Inr [\<lparr>uri = ''dify://dataset/kbB'', title = ''Revenue'', description = ''Quarterly figures''\<rparr>]
   \<and> (str_in (lower (unicode_lower example_world) ''REV'')
         (lower (unicode_lower example_world)
            (title \<lparr>uri = ''dify://dataset/kbB'', title = ''Revenue'',
                     description = ''Quarterly figures''\<rparr>))
      \<or> str_in (lower (unicode_lower example_world) ''REV'')
         (lower (unicode_lower example_world)
            (description \<lparr>uri = ''dify://dataset/kbB'', title = ''Revenue'',
                           description = ''Quarterly figures''\<rparr>)))
   \<and> list_resources accent_world (Some [CHR 0xC3, CHR 0x89])
     = Inr [\<lparr>uri = ''dify://dataset/kbE'', title = [CHR 0xC3, CHR 0xA9] @ ''cole'',
             description = ''Quarterly figures''\<rparr>]
   \<and> (str_in (lower (unicode_lower accent_world) [CHR 0xC3, CHR 0x89])
         (lower (unicode_lower accent_world)
            (title \<lparr>uri = ''dify://dataset/kbE'', title = [CHR 0xC3, CHR 0xA9] @ ''cole'',
                     description = ''Quarterly figures''\<rparr>))
      \<or> str_in (lower (unicode_lower accent_world) [CHR 0xC3, CHR 0x89])
         (lower (unicode_lower accent_world)
            (description \<lparr>uri = ''dify://dataset/kbE'', title = [CHR 0xC3, CHR 0xA9] @ ''cole'',
                           description = ''Quarterly figures''\<rparr>)))"
proof -
  have l: "list_resources example_world (Some ''REV'')
     = Inr [\<lparr>uri = ''dify://dataset/kbB'', title = ''Revenue'', description = ''Quarterly figures''\<rparr>]"
    by code_simp
  have a: "list_resources accent_world (Some [CHR 0xC3, CHR 0x89])
     = Inr [\<lparr>uri = ''dify://dataset/kbE'', title = [CHR 0xC3, CHR 0xA9] @ ''cole'',
             description = ''Quarterly figures''\<rparr>]"
    by code_simp
  from list_resources_client_side_filter [OF l]
  have "\<forall>r\<in>set [\<lparr>uri = ''dify://dataset/kbB'', title = ''Revenue'',
                    description = ''Quarterly figures''\<rparr>].
          str_in (lower (unicode_lower example_world) ''REV'') (lower (unicode_lower example_world) (title r))
          \<or> str_in (lower (unicode_lower example_world) ''REV'')
               (lower (unicode_lower example_world) (description r))"
    by (rule conjunct1)
  then have l': "str_in (lower (unicode_lower example_world) ''REV'')
         (lower (unicode_lower example_world)
            (title \<lparr>uri = ''dify://dataset/kbB'', title = ''Revenue'',
                     description = ''Quarterly figures''\<rparr>))
      \<or> str_in (lower (unicode_lower example_world) ''REV'')
         (lower (unicode_lower example_world)
            (description \<lparr>uri = ''dify://dataset/kbB'', title = ''Revenue'',
                           description = ''Quarterly figures''\<rparr>))"
    by (simp only: list.set ball_simps)
  from list_resources_client_side_filter [OF a]
  have "\<forall>r\<in>set [\<lparr>uri = ''dify://dataset/kbE'', title = [CHR 0xC3, CHR 0xA9] @ ''cole'',
                    description = ''Quarterly figures''\<rparr>].
          str_in (lower (unicode_lower accent_world) [CHR 0xC3, CHR 0x89])
             (lower (unicode_lower accent_world) (title r))
          \<or> str_in (lower (unicode_lower accent_world) [CHR 0xC3, CHR 0x89])
               (lower (unicode_lower accent_world) (description r))"
    by (rule conjunct1)
  then have a': "str_in (lower (unicode_lower accent_world) [CHR 0xC3, CHR 0x89])
         (lower (unicode_lower accent_world)
            (title \<lparr>uri = ''dify://dataset/kbE'', title = [CHR 0xC3, CHR 0xA9] @ ''cole'',
                     description = ''Quarterly figures''\<rparr>))
      \<or> str_in (lower (unicode_lower accent_world) [CHR 0xC3, CHR 0x89])
         (lower (unicode_lower accent_world)
            (description \<lparr>uri = ''dify://dataset/kbE'', title = [CHR 0xC3, CHR 0xA9] @ ''cole'',
                           description = ''Quarterly figures''\<rparr>))"
    by (simp only: list.set ball_simps)
  from l l' a a' show ?thesis by (intro conjI)
qed

section \<open>The URI decoders and the grouping of records\<close>

lemmas url_defs =
  urlparse_def split_scheme_def splitnetloc_def cut_at_def check_netloc_def
  c0_control_or_space_def unsafe_url_byte_def ascii_alpha_def scheme_chars_def ascii_lower_def
  lower_char_def netloc_delim_def is_ascii_def uses_params_def

lemma urlparse_simple_form:
  assumes "\<forall>c\<in>set ident. c \<notin> set [CHR ''/'', CHR ''?'', CHR ''#'', CHR 0x09, CHR 0x0A, CHR 0x0D]"
  shows "urlparse netloc_ok (''dify://dataset/'' @ ident) =
           Inr \<lparr>scheme = ''dify'', netloc = ''dataset'', path = CHR ''/'' # ident,
                url_params = [], url_query = [], url_fragment = []\<rparr>"
proof -
  have f: "filter (\<lambda>c. \<not> unsafe_url_byte c) ident = ident"
    using assms by (simp add: filter_id_conv unsafe_url_byte_def)
  have s1: "dropWhile c0_control_or_space (''dify://dataset/'' @ ident) = ''dify://dataset/'' @ ident"
    by (simp add: c0_control_or_space_def)
  have s2: "filter (\<lambda>c. \<not> unsafe_url_byte c) ''dify://dataset/'' = ''dify://dataset/''"
    by (simp add: unsafe_url_byte_def)
  have s: "filter (\<lambda>c. \<not> unsafe_url_byte c)
             (dropWhile c0_control_or_space (''dify://dataset/'' @ ident)) = ''dify://dataset/'' @ ident"
    by (simp only: s1 filter_append s2 f)
  have t1: "takeWhile (\<lambda>c. c \<noteq> CHR ''#'') ident = ident"
    and t2: "takeWhile (\<lambda>c. c \<noteq> CHR ''?'') ident = ident"
    using assms by (simp_all add: takeWhile_eq_all_conv)
  have d1: "dropWhile (\<lambda>c. c \<noteq> CHR ''#'') ident = []"
    and d2: "dropWhile (\<lambda>c. c \<noteq> CHR ''?'') ident = []"
    using assms by simp_all
  have "urlparse netloc_ok (''dify://dataset/'' @ ident) =
     (let url0 = ''dify://dataset/'' @ ident;
          (sch, url1) = split_scheme url0;
          (nl, url2) = (if take 2 url1 = ''//'' then splitnetloc url1 else ([], url1));
          (url3, frag) = cut_at CHR ''#'' url2;
          (url4, qry) = cut_at CHR ''?'' url3;
          (url5, prm) = (if sch \<in> set uses_params \<and> CHR '';'' \<in> set url4
                         then splitparams url4 else (url4, []))
      in if check_netloc netloc_ok nl
         then Inr \<lparr>scheme = sch, netloc = nl, path = url5, url_params = prm,
                   url_query = qry, url_fragment = frag\<rparr>
         else Inl Urllib_ValueError)"
    by (simp only: urlparse_def s)
  also have "\<dots> = Inr \<lparr>scheme = ''dify'', netloc = ''dataset'', path = CHR ''/'' # ident,
                url_params = [], url_query = [], url_fragment = []\<rparr>"
    by (simp add: split_scheme_def splitnetloc_def cut_at_def check_netloc_def ascii_alpha_def
          scheme_chars_def ascii_lower_def lower_char_def netloc_delim_def is_ascii_def uses_params_def
          t1 t2 d1 d2)
  finally show ?thesis .
qed

lemma provider_parse_uri_simple_form:
  assumes "\<forall>c\<in>set ident. c \<notin> set [CHR ''/'', CHR ''?'', CHR ''#'', CHR 0x09, CHR 0x0A, CHR 0x0D]"
  shows "provider_parse_uri netloc_ok (''dify://dataset/'' @ ident) = Some ident"
proof -
  have "CHR ''/'' \<notin> set ident" using assms by auto
  then have "split_on CHR ''/'' ident = [ident]" by (rule split_on_no_sep)
  then have "split_on CHR ''/'' (CHR ''/'' # ident) = [[], ident]" by simp
  then show ?thesis
    unfolding provider_parse_uri_def urlparse_simple_form [OF assms] by simp
qed

text \<open>
  C8. The lenient decoder \<open>_parse_uri\<close> has no failing outcome: where the library's parser
  raises, and where the parsed scheme is not \<open>dify\<close>, it returns \<open>None\<close>. On the simple form
  \<open>dify://dataset/{id}\<close>, with an id free of \<open>/\<close>, \<open>?\<close>, \<open>#\<close>, tab and newline characters,
  it returns the id, which is the last path segment; so \<open>dify://dataset/abc123\<close> gives
  \<open>abc123\<close> and \<open>https://dataset/abc123\<close> gives \<open>None\<close>.
\<close>

theorem lenient_decoder:
  "(urlparse netloc_ok u = Inl e \<longrightarrow> provider_parse_uri netloc_ok u = None)
   \<and> (urlparse netloc_ok u = Inr parsed \<and> scheme parsed \<noteq> ''dify'' \<longrightarrow>
        provider_parse_uri netloc_ok u = None)
   \<and> (urlparse netloc_ok u = Inr parsed \<and> scheme parsed = ''dify'' \<longrightarrow>
        provider_parse_uri netloc_ok u = Some (last (split_on CHR ''/'' (path parsed))))
   \<and> ((\<forall>c\<in>set ident. c \<notin> set [CHR ''/'', CHR ''?'', CHR ''#'', CHR 0x09, CHR 0x0A, CHR 0x0D]) \<longrightarrow>
        provider_parse_uri netloc_ok (''dify://dataset/'' @ ident) = Some ident)
   \<and> provider_parse_uri netloc_ok ''dify://dataset/abc123'' = Some ''abc123''
   \<and> provider_parse_uri netloc_ok ''https://dataset/abc123'' = None"
proof (intro conjI impI)
  assume "urlparse netloc_ok u = Inl e"
  then show "provider_parse_uri netloc_ok u = None" by (simp add: provider_parse_uri_def)
next
  assume "urlparse netloc_ok u = Inr parsed \<and> scheme parsed \<noteq> ''dify''"
  then show "provider_parse_uri netloc_ok u = None" by (simp add: provider_parse_uri_def)
next
  assume "urlparse netloc_ok u = Inr parsed \<and> scheme parsed = ''dify''"
  then show "provider_parse_uri netloc_ok u = Some (last (split_on CHR ''/'' (path parsed)))"
    by (simp add: provider_parse_uri_def split_on_not_Nil)
next
  assume "\<forall>c\<in>set ident. c \<notin> set [CHR ''/'', CHR ''?'', CHR ''#'', CHR 0x09, CHR 0x0A, CHR 0x0D]"
  then show "provider_parse_uri netloc_ok (''dify://dataset/'' @ ident) = Some ident"
    by (rule provider_parse_uri_simple_form)
next
  have "provider_parse_uri netloc_ok (''dify://dataset/'' @ ''abc123'') = Some ''abc123''"
    by (rule provider_parse_uri_simple_form) simp
  then show "provider_parse_uri netloc_ok ''dify://dataset/abc123'' = Some ''abc123''" by simp
next
  show "provider_parse_uri netloc_ok ''https://dataset/abc123'' = None"
    by (simp add: provider_parse_uri_def url_defs)
qed

theorem lenient_decoder_witness:
  "urlparse (\<lambda>nl. False) ''dify://[kb/abc123'' = Inl Urllib_ValueError
   \<and> provider_parse_uri (\<lambda>nl. False) ''dify://[kb/abc123'' = None
   \<and> urlparse (\<lambda>nl. False) ''https://dataset/abc123''
       = Inr \<lparr>scheme = ''https'', netloc = ''dataset'', path = ''/abc123'',
              url_params = [], url_query = [], url_fragment = []\<rparr>
   \<and> scheme \<lparr>scheme = ''https'', netloc = ''dataset'', path = ''/abc123'',
              url_params = [], url_query = [], url_fragment = []\<rparr> \<noteq> ''dify''
   \<and> provider_parse_uri (\<lambda>nl. False) ''https://dataset/abc123'' = None
   \<and> urlparse (\<lambda>nl. False) ''DIFY://host/a/b?x=1''
       = Inr \<lparr>scheme = ''dify'', netloc = ''host'', path = ''/a/b'',
              url_params = [], url_query = ''x=1'', url_fragment = []\<rparr>
   \<and> provider_parse_uri (\<lambda>nl. False) ''DIFY://host/a/b?x=1'' = Some ''b''
   \<and> provider_parse_uri (\<lambda>nl. False) (''dify://dataset/'' @ ''kb-42'') = Some ''kb-42''"
proof -
  let ?https = "\<lparr>scheme = ''https'', netloc = ''dataset'', path = ''/abc123'',
              url_params = [], url_query = [], url_fragment = []\<rparr>"
  let ?dify = "\<lparr>scheme = ''dify'', netloc = ''host'', path = ''/a/b'',
              url_params = [], url_query = ''x=1'', url_fragment = []\<rparr>"
  have a: "urlparse (\<lambda>nl. False) ''dify://[kb/abc123'' = Inl Urllib_ValueError" by code_simp
  have b: "urlparse (\<lambda>nl. False) ''https://dataset/abc123'' = Inr ?https" by code_simp
  have c: "scheme ?https \<noteq> ''dify''" by simp
  have d: "urlparse (\<lambda>nl. False) ''DIFY://host/a/b?x=1'' = Inr ?dify" by code_simp
  have e: "scheme ?dify = ''dify''" by simp
  have f: "last (split_on CHR ''/'' (path ?dify)) = ''b''" by code_simp
  have g: "\<forall>c\<in>set ''kb-42''. c \<notin> set [CHR ''/'', CHR ''?'', CHR ''#'', CHR 0x09, CHR 0x0A, CHR 0x0D]"
    by simp
  from a lenient_decoder [of "\<lambda>nl. False" "''dify://[kb/abc123''" Urllib_ValueError]
  have a': "provider_parse_uri (\<lambda>nl. False) ''dify://[kb/abc123'' = None" by blast
  from b c lenient_decoder [of "\<lambda>nl. False" "''https://dataset/abc123''" _ ?https]
  have b': "provider_parse_uri (\<lambda>nl. False) ''https://dataset/abc123'' = None" by blast
  from d e lenient_decoder [of "\<lambda>nl. False" "''DIFY://host/a/b?x=1''" _ ?dify]
  have "provider_parse_uri (\<lambda>nl. False) ''DIFY://host/a/b?x=1'' = Some (last (split_on CHR ''/'' (path ?dify)))"
    by blast
  with f have d': "provider_parse_uri (\<lambda>nl. False) ''DIFY://host/a/b?x=1'' = Some ''b''"
    by (simp only:)
  from g lenient_decoder [of "\<lambda>nl. False" _ _ _ "''kb-42''"]
  have g': "provider_parse_uri (\<lambda>nl. False) (''dify://dataset/'' @ ''kb-42'') = Some ''kb-42''"
    by blast
  from a a' b c b' d d' g' show ?thesis by (intro conjI)
qed

text \<open>
  C2. On the code, the strict decoder \<open>parse_uri\<close> raises on the very form that its docstring
  gives, \<open>dify://knowledge_base/kb1/document/doc7\<close>: the library puts \<open>knowledge_base\<close> into
  the network location, so the path is \<open>/kb1/document/doc7\<close> and its second part is \<open>kb1\<close>,
  not \<open>knowledge_base\<close>. It raises, with the URI in the error, on \<open>dify://dataset/abc123\<close> and
  on a scheme other than \<open>dify\<close>; the pair \<open>(kb1, doc7)\<close> comes out only when
  \<open>knowledge_base\<close> is the first path segment, as after a single slash.
\<close>

theorem strict_decoder_rejects_documented_form:
  "parse_uri netloc_ok ''dify://knowledge_base/kb1/document/doc7''
     = Inl (Invalid_Dify_URI_format ''dify://knowledge_base/kb1/document/doc7'')
   \<and> parse_uri netloc_ok ''dify://dataset/abc123''
     = Inl (Invalid_Dify_URI_format ''dify://dataset/abc123'')
   \<and> parse_uri netloc_ok ''https://knowledge_base/kb1/document/doc7''
     = Inl (Invalid_URI_scheme ''https://knowledge_base/kb1/document/doc7'')
   \<and> parse_uri netloc_ok ''dify:/knowledge_base/kb1/document/doc7'' = Inr (''kb1'', ''doc7'')"
  by (simp add: parse_uri_def url_defs)

text \<open>
  C1. On the code, the records of one response are never grouped: the key of a record contains
  the number of Documents made so far, so it is never in \<open>doc_map\<close>, and every record becomes
  a Document of its own with exactly one chunk. Two records of \<open>kbA\<close> with the same
  \<open>document_id\<close> \<open>d1\<close> give two Documents, \<open>kbA_d1_0\<close> and \<open>kbA_d1_1\<close>.
\<close>

theorem records_of_one_document_not_grouped:
  "parse_dify_response [example_record ''d1'' (9 / 10) ''x'', example_record ''d1'' (4 / 10) ''y'']
       ''kbA'' 0
     = [example_document ''kbA_d1_0'' ''[kbA] Report'' (9 / 10) ''x'',
        example_document ''kbA_d1_1'' ''[kbA] Report'' (4 / 10) ''y'']
   \<and> length (parse_dify_response records knowledge_base_id doc_id_offset) = length records
   \<and> map (\<lambda>d. length (doc_chunks d)) (parse_dify_response records knowledge_base_id doc_id_offset)
     = replicate (length records) 1"
proof (intro conjI)
  show "parse_dify_response [example_record ''d1'' (9 / 10) ''x'', example_record ''d1'' (4 / 10) ''y'']
       ''kbA'' 0
     = [example_document ''kbA_d1_0'' ''[kbA] Report'' (9 / 10) ''x'',
        example_document ''kbA_d1_1'' ''[kbA] Report'' (4 / 10) ''y'']"
    by code_simp
next
  show "length (parse_dify_response records knowledge_base_id doc_id_offset) = length records"
    by (rule length_parse_dify_response)
next
  show "map (\<lambda>d. length (doc_chunks d)) (parse_dify_response records knowledge_base_id doc_id_offset)
     = replicate (length records) 1"
    by (rule nth_equalityI)
       (simp_all add: length_parse_dify_response parse_dify_response_nth single_document_def)
qed

end
